theory Spec2Isabelle
  imports Main "HOL-Library.AList"
begin

section \<open>Python values\<close>

text \<open>
  The backend (\<^verbatim>\<open>backend/main.py\<close>) is dynamically typed: the host passes it values
  decoded from JSON (\<^verbatim>\<open>payload: Any\<close>, \<^verbatim>\<open>value: Any\<close>), and \<^verbatim>\<open>json.load\<close> returns
  such values. \<open>pyval\<close> is that universe. \<open>PBytes\<close> is a \<^verbatim>\<open>bytes\<close> object: it is
  hashable and the \<^verbatim>\<open>json\<close> module cannot serialise it, so it stands for the values on
  which \<^verbatim>\<open>json.dumps\<close> raises \<^verbatim>\<open>TypeError\<close>. A dict is an association list in
  insertion order. Floats are not modelled. Strings are lists of 8-bit characters.
\<close>

datatype pyval =
    PNone
  | PBool bool
  | PInt int
  | PStr string
  | PBytes string
  | PList "pyval list"
  | PDict "(pyval \<times> pyval) list"

text \<open>The exceptions that can leave the entry points.\<close>

datatype py_error = AttributeError | TypeError | IndexError

text \<open>Lists and dicts are unhashable and cannot be dict keys.\<close>

fun hashable :: "pyval \<Rightarrow> bool" where
  "hashable (PList xs) = False"
| "hashable (PDict d) = False"
| "hashable v = True"

text \<open>
  Python compares dict keys with \<^verbatim>\<open>==\<close>, under which \<^verbatim>\<open>True == 1\<close> and
  \<^verbatim>\<open>False == 0\<close>; values of different types are otherwise unequal.
\<close>

fun key_num :: "pyval \<Rightarrow> int option" where
  "key_num (PBool b) = Some (if b then 1 else 0)"
| "key_num (PInt i) = Some i"
| "key_num v = None"

definition key_eq :: "pyval \<Rightarrow> pyval \<Rightarrow> bool" where
  "key_eq a b = (a = b \<or> (key_num a \<noteq> None \<and> key_num a = key_num b))"

text \<open>\<^verbatim>\<open>d.get(k)\<close> and \<^verbatim>\<open>d[k] = v\<close> on a dict \<open>d\<close>, for a hashable key.\<close>

fun dict_get :: "(pyval \<times> pyval) list \<Rightarrow> pyval \<Rightarrow> pyval option" where
  "dict_get [] k = None"
| "dict_get (kv # d) k = (if key_eq (fst kv) k then Some (snd kv) else dict_get d k)"

fun dict_set :: "(pyval \<times> pyval) list \<Rightarrow> pyval \<Rightarrow> pyval \<Rightarrow> (pyval \<times> pyval) list" where
  "dict_set [] k v = [(k, v)]"
| "dict_set (kv # d) k v =
     (if key_eq (fst kv) k then (fst kv, v) # d else kv # dict_set d k v)"

text \<open>\<^verbatim>\<open>bool(v)\<close>.\<close>

fun truthy :: "pyval \<Rightarrow> bool" where
  "truthy PNone = False"
| "truthy (PBool b) = b"
| "truthy (PInt i) = (i \<noteq> 0)"
| "truthy (PStr s) = (s \<noteq> [])"
| "truthy (PBytes s) = (s \<noteq> [])"
| "truthy (PList xs) = (xs \<noteq> [])"
| "truthy (PDict d) = (d \<noteq> [])"

text \<open>
  \<^verbatim>\<open>payload.get(name, default)\<close> when \<^verbatim>\<open>payload\<close> is a dict, and \<^verbatim>\<open>default\<close> otherwise:
  the first lines of every entry point.
\<close>

definition payload_get :: "pyval \<Rightarrow> string \<Rightarrow> pyval \<Rightarrow> pyval" where
  "payload_get payload name dflt =
     (case payload of
        PDict d \<Rightarrow> (case dict_get d (PStr name) of Some v \<Rightarrow> v | None \<Rightarrow> dflt)
      | _ \<Rightarrow> dflt)"

text \<open>
  \<^verbatim>\<open>data[key] = value\<close> on whatever \<^verbatim>\<open>_load_all\<close> returned. On a dict the key must be
  hashable; on a list the key must be an integer in range; every other object does not
  support item assignment.
\<close>

definition py_setitem :: "pyval \<Rightarrow> pyval \<Rightarrow> pyval \<Rightarrow> py_error + pyval" where
  "py_setitem data k v =
     (case data of
        PDict d \<Rightarrow> if hashable k then Inr (PDict (dict_set d k v)) else Inl TypeError
      | PList xs \<Rightarrow>
          (case key_num k of
             None \<Rightarrow> Inl TypeError
           | Some i \<Rightarrow>
               (let n = int (length xs); j = (if i < 0 then i + n else i)
                in if 0 \<le> j \<and> j < n then Inr (PList (xs[nat j := v])) else Inl IndexError))
      | _ \<Rightarrow> Inl TypeError)"

text \<open>\<^verbatim>\<open>data.get(key)\<close>: only a dict has the method.\<close>

definition py_get :: "pyval \<Rightarrow> pyval \<Rightarrow> py_error + pyval" where
  "py_get data k =
     (case data of
        PDict d \<Rightarrow>
          if hashable k then Inr (case dict_get d k of Some v \<Rightarrow> v | None \<Rightarrow> PNone)
          else Inl TypeError
      | _ \<Rightarrow> Inl AttributeError)"

section \<open>The json module\<close>

text \<open>
  A JSON document as a syntax tree. An object is a list of members, in the order of the
  text, and a text may repeat a member name.
\<close>

datatype json =
    JNull
  | JBool bool
  | JInt int
  | JStr string
  | JArr "json list"
  | JObj "(string \<times> json) list"

text \<open>Decimal numerals, as \<^verbatim>\<open>int.__repr__\<close> prints them.\<close>

fun show_nat :: "nat \<Rightarrow> string" where
  "show_nat n =
     (if n < 10 then [char_of (48 + n)]
      else show_nat (n div 10) @ [char_of (48 + n mod 10)])"

declare show_nat.simps [simp del]

definition show_int :: "int \<Rightarrow> string" where
  "show_int i = (if i < 0 then CHR ''-'' # show_nat (nat (- i)) else show_nat (nat i))"

text \<open>
  The encoder turns a dict key into a member name: a string is kept, an integer, a
  boolean and \<^verbatim>\<open>None\<close> are printed, any other key raises \<^verbatim>\<open>TypeError\<close>.
\<close>

fun json_key :: "pyval \<Rightarrow> string option" where
  "json_key (PStr s) = Some s"
| "json_key (PBool b) = Some (if b then ''true'' else ''false'')"
| "json_key PNone = Some ''null''"
| "json_key (PInt i) = Some (show_int i)"
| "json_key v = None"

text \<open>The encoder of \<^verbatim>\<open>json.dump\<close> and \<^verbatim>\<open>json.dumps\<close>; \<open>None\<close> when it raises.\<close>

fun to_json :: "pyval \<Rightarrow> json option"
  and to_json_list :: "pyval list \<Rightarrow> json list option"
  and to_json_items :: "(pyval \<times> pyval) list \<Rightarrow> (string \<times> json) list option" where
  "to_json PNone = Some JNull"
| "to_json (PBool b) = Some (JBool b)"
| "to_json (PInt i) = Some (JInt i)"
| "to_json (PStr s) = Some (JStr s)"
| "to_json (PBytes s) = None"
| "to_json (PList xs) = map_option JArr (to_json_list xs)"
| "to_json (PDict d) = map_option JObj (to_json_items d)"
| "to_json_list [] = Some []"
| "to_json_list (x # xs) =
     (case to_json x of
        None \<Rightarrow> None
      | Some j \<Rightarrow> map_option (\<lambda>js. j # js) (to_json_list xs))"
| "to_json_items [] = Some []"
| "to_json_items (kv # d) =
     (case json_key (fst kv) of
        None \<Rightarrow> None
      | Some s \<Rightarrow>
          (case to_json (snd kv) of
             None \<Rightarrow> None
           | Some j \<Rightarrow> map_option (\<lambda>ms. (s, j) # ms) (to_json_items d)))"

text \<open>
  The decoder of \<^verbatim>\<open>json.load\<close>: the Python value built from a syntax tree. The members of
  an object are stored one after the other, so a repeated name keeps its first position
  and its last value.
\<close>

fun of_json :: "json \<Rightarrow> pyval"
  and of_json_list :: "json list \<Rightarrow> pyval list"
  and of_json_items :: "(string \<times> json) list \<Rightarrow> (pyval \<times> pyval) list \<Rightarrow> (pyval \<times> pyval) list" where
  "of_json JNull = PNone"
| "of_json (JBool b) = PBool b"
| "of_json (JInt i) = PInt i"
| "of_json (JStr s) = PStr s"
| "of_json (JArr xs) = PList (of_json_list xs)"
| "of_json (JObj ms) = PDict (of_json_items ms [])"
| "of_json_list [] = []"
| "of_json_list (x # xs) = of_json x # of_json_list xs"
| "of_json_items [] acc = acc"
| "of_json_items (m # ms) acc = of_json_items ms (dict_set acc (PStr (fst m)) (of_json (snd m)))"

text \<open>
  The text \<^verbatim>\<open>json.dumps(v, ensure_ascii=False)\<close> prints: separators \<^verbatim>\<open>", "\<close> and
  \<^verbatim>\<open>": "\<close>; in a string the quote, the backslash and the control characters are
  escaped and every other character is kept.
\<close>

definition hex_digit :: "nat \<Rightarrow> char" where
  "hex_digit n = (if n < 10 then char_of (48 + n) else char_of (87 + n))"

definition escape_char :: "char \<Rightarrow> string" where
  "escape_char c =
     (if c = CHR 0x22 then [CHR 0x5C, CHR 0x22]
      else if c = CHR 0x5C then [CHR 0x5C, CHR 0x5C]
      else if c = CHR 0x08 then [CHR 0x5C, CHR ''b'']
      else if c = CHR 0x0C then [CHR 0x5C, CHR ''f'']
      else if c = CHR 0x0A then [CHR 0x5C, CHR ''n'']
      else if c = CHR 0x0D then [CHR 0x5C, CHR ''r'']
      else if c = CHR 0x09 then [CHR 0x5C, CHR ''t'']
      else if (of_char c :: nat) < 32
        then [CHR 0x5C, CHR ''u'', CHR ''0'', CHR ''0'',
              hex_digit (of_char c div 16), hex_digit (of_char c mod 16)]
      else [c])"

definition json_quote :: "string \<Rightarrow> string" where
  "json_quote s = CHR 0x22 # concat (map escape_char s) @ [CHR 0x22]"

fun json_text :: "json \<Rightarrow> string"
  and json_text_list :: "json list \<Rightarrow> string"
  and json_text_items :: "(string \<times> json) list \<Rightarrow> string" where
  "json_text JNull = ''null''"
| "json_text (JBool b) = (if b then ''true'' else ''false'')"
| "json_text (JInt i) = show_int i"
| "json_text (JStr s) = json_quote s"
| "json_text (JArr xs) = ''['' @ json_text_list xs @ '']''"
| "json_text (JObj ms) = ''{'' @ json_text_items ms @ ''}''"
| "json_text_list [] = []"
| "json_text_list [x] = json_text x"
| "json_text_list (x # y # xs) = json_text x @ '', '' @ json_text_list (y # xs)"
| "json_text_items [] = []"
| "json_text_items [m] = json_quote (fst m) @ '': '' @ json_text (snd m)"
| "json_text_items (m # m' # ms) =
     json_quote (fst m) @ '': '' @ json_text (snd m) @ '', '' @ json_text_items (m' # ms)"

definition json_dumps :: "pyval \<Rightarrow> string option" where
  "json_dumps v = map_option json_text (to_json v)"

text \<open>
  \<^verbatim>\<open>json.dumps\<close> of a \<^verbatim>\<open>dict[str, str]\<close>, which cannot raise: the owner-name cache and
  the result of \<^verbatim>\<open>resolve_owner_names\<close>.
\<close>

definition json_dumps_names :: "(string \<times> string) list \<Rightarrow> string" where
  "json_dumps_names m = json_text (JObj (map (\<lambda>kv. (fst kv, JStr (snd kv))) m))"

text \<open>
  \<^verbatim>\<open>json.loads\<close> reads a text. The parser belongs to the Python library, not to this
  program, and it is a parameter \<open>parse\<close> of the functions that call it: the syntax tree
  of a text, \<open>None\<close> when \<^verbatim>\<open>json.loads\<close> raises.
\<close>

definition json_loads :: "(string \<Rightarrow> json option) \<Rightarrow> string \<Rightarrow> pyval option" where
  "json_loads parse s = map_option of_json (parse s)"

section \<open>Strings\<close>

text \<open>
  \<^verbatim>\<open>str.strip()\<close> removes leading and trailing whitespace. In the ASCII range the
  whitespace characters are tab, line feed, vertical tab, form feed, carriage return,
  the four separators \<^verbatim>\<open>0x1c\<close> to \<^verbatim>\<open>0x1f\<close> and the space. A character above the
  ASCII range is not whitespace here.
\<close>

definition is_space :: "char \<Rightarrow> bool" where
  "is_space c = ((9 \<le> (of_char c :: nat) \<and> (of_char c :: nat) \<le> 13)
               \<or> (28 \<le> (of_char c :: nat) \<and> (of_char c :: nat) \<le> 32))"

definition strip :: "string \<Rightarrow> string" where
  "strip s = rev (dropWhile is_space (rev (dropWhile is_space s)))"

text \<open>\<^verbatim>\<open>s.split(",")\<close>: the fields between the commas; one empty field for the empty string.\<close>

fun split_comma :: "string \<Rightarrow> string list" where
  "split_comma [] = [ [] ]"
| "split_comma (c # cs) =
     (if c = CHR '','' then [] # split_comma cs
      else (case split_comma cs of
              [] \<Rightarrow> [ [c] ]
            | f # fs \<Rightarrow> (c # f) # fs))"

section \<open>The environment\<close>

text \<open>
  The program reads and writes one file, \<^verbatim>\<open>sfs-data.json\<close>, and fetches profile pages.
  The file is absent (\<open>Missing\<close>), or cannot be opened, decoded or parsed (\<open>Corrupt\<close>), or
  holds a JSON document. The text of the file is not modelled: a document is given by the
  syntax tree of its text, \<^verbatim>\<open>json.load\<close> decodes that tree and \<^verbatim>\<open>json.dump\<close> leaves the
  tree of the value it encodes. \<open>writable\<close> says whether \<^verbatim>\<open>_ensure_dir\<close> and
  \<^verbatim>\<open>open(DATA_FILE, "w")\<close> succeed. \<open>profile\<close> is what the network answers for a steam id:
  \<open>NetError\<close> when \<^verbatim>\<open>urlopen\<close> or the read raises, \<open>BadXml\<close> when \<^verbatim>\<open>ET.fromstring\<close>
  raises, and otherwise \<open>Xml t\<close> where \<open>t\<close> is the value of \<^verbatim>\<open>root.findtext("steamID")\<close>.
  \<open>log\<close> records the file loads, the file writes and the fetches, in order. The
  diagnostics printed to standard output are left out.
\<close>

datatype file_state = Missing | Corrupt | Doc json

datatype reply = NetError | BadXml | Xml "string option"

datatype event = EvLoad | EvWrite | EvFetch string

record world =
  data_file :: file_state
  writable :: bool
  profile :: "string \<Rightarrow> reply"
  log :: "event list"

definition OWNER_NAME_CACHE_KEY :: string where
  "OWNER_NAME_CACHE_KEY = ''sfs.ownerNames.v1''"

text \<open>\<^verbatim>\<open>_load_all\<close>: the empty dict when the file is absent or reading it raises.\<close>

definition load_all :: "world \<Rightarrow> pyval \<times> world" where
  "load_all w =
     ((case data_file w of
         Missing \<Rightarrow> PDict []
       | Corrupt \<Rightarrow> PDict []
       | Doc j \<Rightarrow> of_json j),
      w\<lparr>log := log w @ [EvLoad]\<rparr>)"

text \<open>
  \<^verbatim>\<open>_write_all\<close>. When the file cannot be opened nothing changes. Once it is open it has
  been truncated, so when the encoder raises the file is left without a complete
  document.
\<close>

definition write_all :: "pyval \<Rightarrow> world \<Rightarrow> bool \<times> world" where
  "write_all data w =
     (let w1 = w\<lparr>log := log w @ [EvWrite]\<rparr>
      in if \<not> writable w then (False, w1)
         else (case to_json data of
                 None \<Rightarrow> (False, w1\<lparr>data_file := Corrupt\<rparr>)
               | Some j \<Rightarrow> (True, w1\<lparr>data_file := Doc j\<rparr>)))"

section \<open>The storage shim\<close>

definition storage_get :: "pyval \<Rightarrow> pyval \<Rightarrow> world \<Rightarrow> (py_error + pyval) \<times> world" where
  "storage_get payload key w =
     (let key = payload_get payload ''key'' key
      in if key = PNone then (Inr PNone, w)
         else (case load_all w of (data, w1) \<Rightarrow> (py_get data key, w1)))"

text \<open>
  The value \<^verbatim>\<open>storage_set\<close> stores: a string as it is, any other value as its JSON text,
  \<open>None\<close> when \<^verbatim>\<open>json.dumps\<close> raises.
\<close>

definition str_value :: "pyval \<Rightarrow> string option" where
  "str_value v = (case v of PStr s \<Rightarrow> Some s | _ \<Rightarrow> json_dumps v)"

definition storage_set :: "pyval \<Rightarrow> pyval \<Rightarrow> pyval \<Rightarrow> world \<Rightarrow> (py_error + bool) \<times> world" where
  "storage_set payload key val w =
     (let key = payload_get payload ''key'' key;
          val = payload_get payload ''value'' val
      in if key = PNone then (Inr False, w)
         else if val = PNone then (Inr False, w)
         else (case str_value val of
                 None \<Rightarrow> (Inr False, w)
               | Some s \<Rightarrow>
                   (case load_all w of (data, w1) \<Rightarrow>
                      (case py_setitem data key (PStr s) of
                         Inl e \<Rightarrow> (Inl e, w1)
                       | Inr data' \<Rightarrow>
                           (case write_all data' w1 of (ok, w2) \<Rightarrow> (Inr ok, w2))))))"

section \<open>The owner-name resolver\<close>

type_synonym names = "(string \<times> string) list"

text \<open>One round of the loop of \<^verbatim>\<open>_normalize_owner_name_cache\<close>, and the function.\<close>

definition normalize_item :: "pyval \<times> pyval \<Rightarrow> names \<Rightarrow> names" where
  "normalize_item kv normalized =
     (case fst kv of
        PStr steam_id \<Rightarrow>
          (case snd kv of
             PStr owner_name \<Rightarrow>
               (let sid = strip steam_id; name = strip owner_name
                in if sid = [] \<or> name = [] then normalized
                   else AList.update sid name normalized)
           | _ \<Rightarrow> normalized)
      | _ \<Rightarrow> normalized)"

definition normalize_owner_name_cache :: "(string \<Rightarrow> json option) \<Rightarrow> pyval \<Rightarrow> names" where
  "normalize_owner_name_cache parse raw =
     (let raw = (case raw of
                   PStr s \<Rightarrow> (case json_loads parse s of Some v \<Rightarrow> v | None \<Rightarrow> PDict [])
                 | _ \<Rightarrow> raw)
      in case raw of
           PDict d \<Rightarrow> fold normalize_item d []
         | _ \<Rightarrow> [])"

text \<open>
  \<^verbatim>\<open>_parse_steam_ids\<close>: \<open>parsed_entries\<close> is the list \<^verbatim>\<open>parsed\<close> (the strings of the list,
  or the fields of the csv), \<open>parse_loop\<close> the loop over it.
\<close>

fun str_items :: "pyval list \<Rightarrow> string list" where
  "str_items [] = []"
| "str_items (PStr s # xs) = s # str_items xs"
| "str_items (x # xs) = str_items xs"

fun parse_loop :: "string list \<Rightarrow> string list \<Rightarrow> string set \<Rightarrow> string list" where
  "parse_loop [] unique seen = unique"
| "parse_loop (steam_id # parsed) unique seen =
     (let sid = strip steam_id
      in if sid = [] \<or> sid \<in> seen then parse_loop parsed unique seen
         else parse_loop parsed (unique @ [sid]) (insert sid seen))"

definition parsed_entries :: "pyval \<Rightarrow> pyval \<Rightarrow> string list" where
  "parsed_entries steam_ids steam_ids_csv =
     (case steam_ids of
        PList xs \<Rightarrow> str_items xs
      | _ \<Rightarrow> (case steam_ids_csv of PStr s \<Rightarrow> split_comma s | _ \<Rightarrow> []))"

definition parse_steam_ids :: "pyval \<Rightarrow> pyval \<Rightarrow> string list" where
  "parse_steam_ids steam_ids steam_ids_csv =
     parse_loop (parsed_entries steam_ids steam_ids_csv) [] {}"

text \<open>
  \<^verbatim>\<open>_fetch_owner_name_from_profile_xml\<close>: every exception gives \<^verbatim>\<open>None\<close>, and so does a
  name that is empty once stripped. \<open>owner_name_of_reply\<close> is the part of the body after
  the request.
\<close>

definition owner_name_of_reply :: "reply \<Rightarrow> string option" where
  "owner_name_of_reply r =
     (case r of
        NetError \<Rightarrow> None
      | BadXml \<Rightarrow> None
      | Xml t \<Rightarrow>
          (let name = strip (case t of None \<Rightarrow> [] | Some s \<Rightarrow> s)
           in if name = [] then None else Some name))"

definition fetch_owner_name_from_profile_xml :: "string \<Rightarrow> world \<Rightarrow> string option \<times> world" where
  "fetch_owner_name_from_profile_xml steam_id w =
     (owner_name_of_reply (profile w steam_id), w\<lparr>log := log w @ [EvFetch steam_id]\<rparr>)"

text \<open>
  The tests \<^verbatim>\<open>if cached:\<close> and \<^verbatim>\<open>if name:\<close> on a \<^verbatim>\<open>str | None\<close>: \<^verbatim>\<open>None\<close> and the empty
  string are false.
\<close>

fun if_str :: "string option \<Rightarrow> string option" where
  "if_str None = None"
| "if_str (Some s) = (if s = [] then None else Some s)"

text \<open>The variables of the loop of \<^verbatim>\<open>resolve_owner_names\<close>, and one round of it.\<close>

record resolving =
  owner_name_cache :: names
  result :: names
  cache_updated :: bool
  env :: world

definition resolve_step :: "bool \<Rightarrow> string \<Rightarrow> resolving \<Rightarrow> resolving" where
  "resolve_step force_refresh steam_id st =
     (let cached = (if force_refresh then None else map_of (owner_name_cache st) steam_id)
      in case if_str cached of
           Some c \<Rightarrow> st\<lparr>result := AList.update steam_id c (result st)\<rparr>
         | None \<Rightarrow>
             (case fetch_owner_name_from_profile_xml steam_id (env st) of (name, w1) \<Rightarrow>
                (case if_str name of
                   Some n \<Rightarrow>
                     st\<lparr>owner_name_cache := AList.update steam_id n (owner_name_cache st),
                        result := AList.update steam_id n (result st),
                        cache_updated := True,
                        env := w1\<rparr>
                 | None \<Rightarrow> st\<lparr>env := w1\<rparr>)))"

text \<open>
  \<^verbatim>\<open>resolve_owner_names\<close>. \<open>force_refresh\<close> is the truth value of the argument; a
  payload dict overrides the three arguments.
\<close>

definition resolve_owner_names ::
  "(string \<Rightarrow> json option) \<Rightarrow> pyval \<Rightarrow> pyval \<Rightarrow> pyval \<Rightarrow> bool \<Rightarrow> world
     \<Rightarrow> (py_error + string) \<times> world" where
  "resolve_owner_names parse payload steam_ids steam_ids_csv force_refresh w =
     (let steam_ids = payload_get payload ''steam_ids'' steam_ids;
          steam_ids_csv = payload_get payload ''steam_ids_csv'' steam_ids_csv;
          force_refresh = truthy (payload_get payload ''force_refresh'' (PBool force_refresh));
          normalized_ids = parse_steam_ids steam_ids steam_ids_csv
      in if normalized_ids = [] then (Inr ''{}'', w)
         else (case load_all w of (data, w1) \<Rightarrow>
           (case py_get data (PStr OWNER_NAME_CACHE_KEY) of
              Inl e \<Rightarrow> (Inl e, w1)
            | Inr raw \<Rightarrow>
                (let st = fold (resolve_step force_refresh) normalized_ids
                            \<lparr>owner_name_cache = normalize_owner_name_cache parse raw,
                             result = [], cache_updated = False, env = w1\<rparr>
                 in if cache_updated st
                    then (case py_setitem data (PStr OWNER_NAME_CACHE_KEY)
                                 (PStr (json_dumps_names (owner_name_cache st))) of
                            Inl e \<Rightarrow> (Inl e, env st)
                          | Inr data' \<Rightarrow>
                              (Inr (json_dumps_names (result st)),
                               snd (write_all data' (env st))))
                    else (Inr (json_dumps_names (result st)), env st)))))"

section \<open>The plugin class\<close>

text \<open>
  The methods of \<^verbatim>\<open>Plugin\<close> that the host calls pass their arguments by keyword, without a
  payload. The lifecycle hooks are not modelled.
\<close>

definition Plugin_storage_get :: "pyval \<Rightarrow> world \<Rightarrow> (py_error + pyval) \<times> world" where
  "Plugin_storage_get key w = storage_get PNone key w"

definition Plugin_storage_set :: "pyval \<Rightarrow> pyval \<Rightarrow> world \<Rightarrow> (py_error + bool) \<times> world" where
  "Plugin_storage_set key val w = storage_set PNone key val w"

definition Plugin_resolve_owner_names ::
  "(string \<Rightarrow> json option) \<Rightarrow> pyval \<Rightarrow> bool \<Rightarrow> world \<Rightarrow> (py_error + string) \<times> world" where
  "Plugin_resolve_owner_names parse steam_ids_csv force_refresh w =
     resolve_owner_names parse PNone PNone steam_ids_csv force_refresh w"

section \<open>Notions used in the statements\<close>

text \<open>
  The values \<^verbatim>\<open>json.load\<close> can return: no bytes, and dicts whose keys are strings, each
  once.
\<close>

fun jsonish :: "pyval \<Rightarrow> bool"
  and jsonish_list :: "pyval list \<Rightarrow> bool"
  and jsonish_items :: "(pyval \<times> pyval) list \<Rightarrow> bool" where
  "jsonish PNone = True"
| "jsonish (PBool b) = True"
| "jsonish (PInt i) = True"
| "jsonish (PStr s) = True"
| "jsonish (PBytes s) = False"
| "jsonish (PList xs) = jsonish_list xs"
| "jsonish (PDict d) = (jsonish_items d \<and> distinct (map fst d))"
| "jsonish_list [] = True"
| "jsonish_list (x # xs) = (jsonish x \<and> jsonish_list xs)"
| "jsonish_items [] = True"
| "jsonish_items (kv # d) =
     ((case fst kv of PStr s \<Rightarrow> True | _ \<Rightarrow> False) \<and> jsonish (snd kv) \<and> jsonish_items d)"

text \<open>
  The data file is absent, unreadable, or holds a JSON object: the states in which
  \<^verbatim>\<open>_load_all\<close> returns a dict, as its annotation says.
\<close>

fun holds_object :: "file_state \<Rightarrow> bool" where
  "holds_object Missing = True"
| "holds_object Corrupt = True"
| "holds_object (Doc (JObj ms)) = True"
| "holds_object (Doc j) = False"

text \<open>The entry of the loaded document under a string key, \<^verbatim>\<open>None\<close> when it has none.\<close>

definition entry :: "pyval \<Rightarrow> string \<Rightarrow> pyval" where
  "entry data k =
     (case data of
        PDict d \<Rightarrow> (case dict_get d (PStr k) of Some v \<Rightarrow> v | None \<Rightarrow> PNone)
      | _ \<Rightarrow> PNone)"

text \<open>The owner-name cache that the data file holds, normalised.\<close>

definition persisted_cache :: "(string \<Rightarrow> json option) \<Rightarrow> world \<Rightarrow> names" where
  "persisted_cache parse w =
     normalize_owner_name_cache parse (entry (fst (load_all w)) OWNER_NAME_CACHE_KEY)"



text \<open>A list without its repetitions, each element at its first position.\<close>

fun first_seen :: "'a list \<Rightarrow> 'a list" where
  "first_seen [] = []"
| "first_seen (x # xs) = x # filter (\<lambda>y. y \<noteq> x) (first_seen xs)"

text \<open>
  What the resolver does with one id, given the cache it loaded: the id is served from
  the cache when the cache is consulted and has a name for it, and fetched otherwise;
  the id resolves to the cached name or else to the fetched one.
\<close>

definition cache_hit :: "bool \<Rightarrow> names \<Rightarrow> string \<Rightarrow> string option" where
  "cache_hit force_refresh cache sid = if_str (if force_refresh then None else map_of cache sid)"

definition resolved_name :: "bool \<Rightarrow> names \<Rightarrow> world \<Rightarrow> string \<Rightarrow> string option" where
  "resolved_name force_refresh cache w sid =
     (case cache_hit force_refresh cache sid of
        Some c \<Rightarrow> Some c
      | None \<Rightarrow> owner_name_of_reply (profile w sid))"

text \<open>The result dict: the ids that resolve, in order, each with its name.\<close>

definition resolved_entries :: "bool \<Rightarrow> names \<Rightarrow> world \<Rightarrow> string list \<Rightarrow> names" where
  "resolved_entries force_refresh cache w ids =
     List.map_filter (\<lambda>sid. map_option (\<lambda>n. (sid, n)) (resolved_name force_refresh cache w sid)) ids"

text \<open>The ids the resolver fetches, in order: those it does not serve from the cache.\<close>

definition fetched_ids :: "bool \<Rightarrow> names \<Rightarrow> string list \<Rightarrow> string list" where
  "fetched_ids force_refresh cache ids = filter (\<lambda>sid. cache_hit force_refresh cache sid = None) ids"

text \<open>The arguments in force once the payload has been consulted.\<close>

definition effective_ids :: "pyval \<Rightarrow> pyval \<Rightarrow> pyval \<Rightarrow> string list" where
  "effective_ids payload steam_ids steam_ids_csv =
     parse_steam_ids (payload_get payload ''steam_ids'' steam_ids)
       (payload_get payload ''steam_ids_csv'' steam_ids_csv)"

definition effective_force :: "pyval \<Rightarrow> bool \<Rightarrow> bool" where
  "effective_force payload force_refresh =
     truthy (payload_get payload ''force_refresh'' (PBool force_refresh))"


text \<open>Example environments: an empty one, and one that knows two profiles.\<close>

definition no_network :: "string \<Rightarrow> reply" where
  "no_network sid = NetError"

definition two_profiles :: "string \<Rightarrow> reply" where
  "two_profiles sid =
     (if sid = ''1'' then Xml (Some '' Alice '')
      else if sid = ''2'' then Xml (Some ''Bob'')
      else NetError)"

definition fresh_world :: world where
  "fresh_world = \<lparr>data_file = Missing, writable = True, profile = two_profiles, log = []\<rparr>"

definition stored_world :: world where
  "stored_world =
     \<lparr>data_file = Doc (JObj [(''k'', JStr ''old''), (''other'', JStr ''x'')]),
      writable = True, profile = no_network, log = []\<rparr>"




definition list_world :: world where
  "list_world = \<lparr>data_file = Doc (JArr []), writable = True, profile = no_network, log = []\<rparr>"

section \<open>Dicts and the JSON round trip\<close>

lemma key_eq_PStr [simp]: "key_eq k (PStr s) = (k = PStr s)" "key_eq (PStr s) k = (k = PStr s)"
  by (cases k; auto simp: key_eq_def)+

lemma dict_get_PStr: "dict_get d (PStr s) = map_of d (PStr s)"
  by (induction d) auto

lemma dict_set_fresh: "PStr s \<notin> fst ` set d \<Longrightarrow> dict_set d (PStr s) v = d @ [(PStr s, v)]"
  by (induction d) auto

lemma dict_set_keys: "fst ` set (dict_set d (PStr s) v) = insert (PStr s) (fst ` set d)"
  by (induction d) auto

lemma dict_set_distinct: "distinct (map fst d) \<Longrightarrow> distinct (map fst (dict_set d (PStr s) v))"
  by (induction d) (auto simp: dict_set_keys image_iff)

lemma distinct_PStr_keys:
  "distinct (map (\<lambda>m. PStr (fst m)) ms) \<Longrightarrow> distinct (map fst ms)"
  by (induction ms) (auto simp: image_iff)

lemma dict_set_jsonish_items:
  "jsonish_items d \<Longrightarrow> jsonish v \<Longrightarrow> jsonish_items (dict_set d (PStr s) v)"
  by (induction d) auto

lemma dict_get_set: "dict_get (dict_set d (PStr s) v) k = (if k = PStr s then Some v else dict_get d k)"
  by (induction d) (auto simp: key_eq_def)

lemma of_json_items_fresh:
  "distinct (map fst ms) \<Longrightarrow> \<forall>m \<in> set ms. PStr (fst m) \<notin> fst ` set acc \<Longrightarrow>
   of_json_items ms acc = acc @ map (\<lambda>m. (PStr (fst m), of_json (snd m))) ms"
proof (induction ms arbitrary: acc)
  case Nil
  then show ?case by simp
next
  case (Cons m ms)
  have "of_json_items ms (acc @ [(PStr (fst m), of_json (snd m))])
        = (acc @ [(PStr (fst m), of_json (snd m))]) @ map (\<lambda>m. (PStr (fst m), of_json (snd m))) ms"
    using Cons.prems by (intro Cons.IH) (auto simp: image_iff)
  moreover have "PStr (fst m) \<notin> fst ` set acc" using Cons.prems by simp
  ultimately show ?case by (simp add: dict_set_fresh)
qed

lemma of_json_jsonish:
  "jsonish (of_json j)"
  "jsonish_list (of_json_list js)"
  "jsonish_items acc \<and> distinct (map fst acc) \<Longrightarrow>
     jsonish_items (of_json_items ms acc) \<and> distinct (map fst (of_json_items ms acc))"
  by (induction j and js and ms acc rule: of_json_of_json_list_of_json_items.induct)
     (simp_all add: dict_set_jsonish_items dict_set_distinct)

lemma to_json_of_jsonish:
  "jsonish v \<Longrightarrow> \<exists>j. to_json v = Some j \<and> of_json j = v"
  "jsonish_list xs \<Longrightarrow> \<exists>js. to_json_list xs = Some js \<and> of_json_list js = xs"
  "jsonish_items d \<Longrightarrow>
     \<exists>ms. to_json_items d = Some ms \<and> map (\<lambda>m. (PStr (fst m), of_json (snd m))) ms = d"
proof (induction v and xs and d rule: to_json_to_json_list_to_json_items.induct)
  case (7 d)
  then obtain ms where ms: "to_json_items d = Some ms"
      "map (\<lambda>m. (PStr (fst m), of_json (snd m))) ms = d" by auto
  have "map fst d = map (\<lambda>m. PStr (fst m)) ms" using ms(2) by (auto simp: comp_def)
  with 7 have "distinct (map fst ms)" by (simp add: distinct_PStr_keys)
  then have "of_json_items ms [] = d" using ms(2) by (simp add: of_json_items_fresh)
  then show ?case using ms by simp
next
  case (11 kv d)
  from 11(3) obtain s where s: "fst kv = PStr s" and js: "jsonish (snd kv)" "jsonish_items d"
    by (cases "fst kv") auto
  from 11(1) s js obtain j where j: "to_json (snd kv) = Some j" "of_json j = snd kv"
    by auto
  from 11(2) s j js obtain ms where ms: "to_json_items d = Some ms"
      "map (\<lambda>m. (PStr (fst m), of_json (snd m))) ms = d" by auto
  have "kv = (PStr s, snd kv)" using s by (simp add: prod_eq_iff)
  then show ?case using s j ms by auto
qed auto


section \<open>The storage shim: set and get\<close>

lemma load_all_jsonish: "jsonish (fst (load_all w))"
  by (cases "data_file w") (simp_all add: load_all_def of_json_jsonish)

lemma load_all_world: "snd (load_all w) = w\<lparr>log := log w @ [EvLoad]\<rparr>"
  by (simp add: load_all_def)

lemma load_all_object:
  "holds_object (data_file w) \<Longrightarrow> \<exists>d. fst (load_all w) = PDict d"
  by (cases "data_file w"; simp add: load_all_def)
     (metis holds_object.elims(2) file_state.inject file_state.distinct of_json.simps(6))

lemma write_all_jsonish:
  assumes "jsonish data"
  shows "\<exists>j. to_json data = Some j \<and> of_json j = data \<and>
     write_all data w =
       (writable w,
        w\<lparr>log := log w @ [EvWrite],
          data_file := (if writable w then Doc j else data_file w)\<rparr>)"
proof -
  from to_json_of_jsonish(1) [OF assms] obtain j where "to_json data = Some j" "of_json j = data"
    by blast
  then show ?thesis by (auto simp: write_all_def Let_def)
qed


lemma str_value_str: "str_value (PStr s) = Some s"
  by (simp add: str_value_def)

lemma str_value_other: "\<forall>s. v \<noteq> PStr s \<Longrightarrow> str_value v = json_dumps v"
  by (cases v) (simp_all add: str_value_def)

lemma py_setitem_str_key:
  "py_setitem data (PStr k) v = Inr data' \<Longrightarrow>
     \<exists>d. data = PDict d \<and> data' = PDict (dict_set d (PStr k) v)"
  by (cases data) (auto simp: py_setitem_def)

lemma jsonish_dict_set:
  "jsonish (PDict d) \<Longrightarrow> jsonish v \<Longrightarrow> jsonish (PDict (dict_set d (PStr k) v))"
  by (simp add: dict_set_jsonish_items dict_set_distinct)

lemma storage_set_run:
  assumes key: "payload_get payload ''key'' key = PStr k"
      and val: "payload_get payload ''value'' val \<noteq> PNone"
      and str: "str_value (payload_get payload ''value'' val) = Some s"
      and obj: "fst (load_all w) = PDict d"
  shows "\<exists>j. of_json j = PDict (dict_set d (PStr k) (PStr s)) \<and>
     storage_set payload key val w =
       (Inr (writable w),
        w\<lparr>log := log w @ [EvLoad, EvWrite],
          data_file := (if writable w then Doc j else data_file w)\<rparr>)"
proof -
  let ?data' = "PDict (dict_set d (PStr k) (PStr s))"
  let ?w1 = "w\<lparr>log := log w @ [EvLoad]\<rparr>"
  have l: "load_all w = (PDict d, ?w1)"
    using obj load_all_world [of w] by (simp add: prod_eq_iff)
  have "jsonish (PDict d)" using load_all_jsonish [of w] obj by simp
  then have "jsonish ?data'" by (intro jsonish_dict_set) simp_all
  from write_all_jsonish [OF this, of ?w1] obtain j where j: "of_json j = ?data'"
    "write_all ?data' ?w1 =
       (writable ?w1, ?w1\<lparr>log := log ?w1 @ [EvWrite],
          data_file := (if writable ?w1 then Doc j else data_file ?w1)\<rparr>)" by blast
  have "storage_set payload key val w =
       (Inr (writable w),
        w\<lparr>log := log w @ [EvLoad, EvWrite],
          data_file := (if writable w then Doc j else data_file w)\<rparr>)"
    using key val str l j(2) by (simp add: storage_set_def Let_def py_setitem_def)
  with j(1) show ?thesis by blast
qed

lemma str_value_42: "str_value (PInt 42) = Some ''42''"
  by code_simp


text \<open>
  Claim C1. When \<^verbatim>\<open>storage_set\<close> with a string key \<open>k\<close> returns \<^verbatim>\<open>True\<close>, its value was
  not \<^verbatim>\<open>None\<close>, and a following \<^verbatim>\<open>storage_get\<close> of \<open>k\<close> returns the stored string: the
  value itself when it is a string, its JSON text otherwise (\<open>str_value\<close>, see
  \<open>str_value_str\<close> and \<open>str_value_other\<close>).
\<close>

theorem storage_set_then_get:
  assumes "payload_get payload ''key'' key = PStr k"
      and "storage_set payload key val w = (Inr True, w')"
  shows "payload_get payload ''value'' val \<noteq> PNone \<and>
     (\<exists>s. str_value (payload_get payload ''value'' val) = Some s \<and>
          fst (storage_get payload key w') = Inr (PStr s))"
proof -
  let ?v = "payload_get payload ''value'' val"
  from assms have v: "?v \<noteq> PNone"
    by (auto simp: storage_set_def Let_def split: if_splits)
  from assms v obtain s where s: "str_value ?v = Some s"
    by (cases "str_value ?v") (auto simp: storage_set_def Let_def)
  obtain data where data: "fst (load_all w) = data" by simp
  have l: "load_all w = (data, w\<lparr>log := log w @ [EvLoad]\<rparr>)"
    using data load_all_world [of w] by (simp add: prod_eq_iff)
  from assms v s l obtain data' where "py_setitem data (PStr k) (PStr s) = Inr data'"
    by (cases "py_setitem data (PStr k) (PStr s)") (auto simp: storage_set_def Let_def)
  then obtain d where d: "data = PDict d" by (auto dest: py_setitem_str_key)
  from storage_set_run [OF assms(1) v s, of w d] data d obtain j where
    j: "of_json j = PDict (dict_set d (PStr k) (PStr s))"
       "storage_set payload key val w =
       (Inr (writable w),
        w\<lparr>log := log w @ [EvLoad, EvWrite],
          data_file := (if writable w then Doc j else data_file w)\<rparr>)" by auto
  from j(2) assms(2) have "writable w" and w': "data_file w' = Doc j" by auto
  have "fst (load_all w') = PDict (dict_set d (PStr k) (PStr s))"
    using w' j(1) by (simp add: load_all_def)
  then have "fst (storage_get payload key w') = Inr (PStr s)"
    using assms(1)
    by (cases "load_all w'") (simp add: storage_get_def Let_def py_get_def dict_get_set)
  with v s show ?thesis by blast
qed

theorem storage_set_then_get_witness:
  "fst (storage_set PNone (PStr ''k'') (PInt 42) fresh_world) = Inr True \<and>
   fst (storage_get PNone (PStr ''k'')
          (snd (storage_set PNone (PStr ''k'') (PInt 42) fresh_world))) = Inr (PStr ''42'')"
proof -
  let ?w' = "snd (storage_set PNone (PStr ''k'') (PInt 42) fresh_world)"
  have k: "payload_get PNone ''key'' (PStr ''k'') = PStr ''k''"
    by (simp add: payload_get_def)
  have v: "payload_get PNone ''value'' (PInt 42) = PInt 42"
    by (simp add: payload_get_def)
  have ok: "fst (storage_set PNone (PStr ''k'') (PInt 42) fresh_world) = Inr True"
    by (simp add: storage_set_def Let_def k v str_value_42 load_all_def fresh_world_def
        py_setitem_def write_all_def)
  then have "storage_set PNone (PStr ''k'') (PInt 42) fresh_world = (Inr True, ?w')"
    by (simp add: prod_eq_iff)
  from storage_set_then_get [OF k this] ok show ?thesis
    by (simp add: v str_value_42)
qed

text \<open>
  Claim C2. \<^verbatim>\<open>storage_set\<close> with the value \<^verbatim>\<open>None\<close> returns \<^verbatim>\<open>False\<close> and leaves the
  environment as it was, for every key: the file is neither read nor written, and any
  following \<^verbatim>\<open>storage_get\<close> returns what it would have returned before the call.
\<close>

theorem storage_set_none_noop:
  "payload_get payload ''value'' val = PNone \<Longrightarrow>
     storage_set payload key val w = (Inr False, w) \<and>
     storage_get payload' key' (snd (storage_set payload key val w)) = storage_get payload' key' w"
  by (simp add: storage_set_def Let_def)

theorem storage_set_none_noop_witness:
  "payload_get PNone ''value'' PNone = PNone \<and>
   storage_set PNone (PStr ''k'') PNone stored_world = (Inr False, stored_world) \<and>
   storage_get PNone (PStr ''k'') (snd (storage_set PNone (PStr ''k'') PNone stored_world))
     = storage_get PNone (PStr ''k'') stored_world"
  using storage_set_none_noop [where payload = PNone and val = PNone and key = "PStr ''k''"
      and w = stored_world and payload' = PNone and key' = "PStr ''k''"]
  by (simp add: payload_get_def)




section \<open>The owner-name resolver: parsing and the loop\<close>

lemma first_seen_set: "set (first_seen xs) = set xs"
  by (induction xs) auto

lemma first_seen_distinct: "distinct (first_seen xs)"
  by (induction xs) auto

lemma parse_loop_first_seen:
  "parse_loop parsed unique seen =
     unique @ filter (\<lambda>s. s \<notin> seen) (first_seen (filter (\<lambda>s. s \<noteq> []) (map strip parsed)))"
proof (induction parsed arbitrary: unique seen)
  case Nil
  then show ?case by simp
next
  case (Cons x parsed)
  let ?rest = "first_seen (filter (\<lambda>s. s \<noteq> []) (map strip parsed))"
  show ?case
  proof (cases "strip x = [] \<or> strip x \<in> seen")
    case True
    then have "filter (\<lambda>s. s \<notin> seen) (filter (\<lambda>y. y \<noteq> strip x) ?rest)
               = filter (\<lambda>s. s \<notin> seen) ?rest" if "strip x \<noteq> []"
      using that by (auto intro: filter_cong)
    with True show ?thesis by (auto simp: Cons.IH Let_def)
  next
    case False
    have "filter (\<lambda>s. s \<notin> insert (strip x) seen) ?rest
          = filter (\<lambda>s. s \<notin> seen) (filter (\<lambda>y. y \<noteq> strip x) ?rest)"
      by (auto intro: filter_cong)
    with False show ?thesis by (simp add: Cons.IH Let_def)
  qed
qed

lemma parse_steam_ids_first_seen:
  "parse_steam_ids a b =
     first_seen (filter (\<lambda>s. s \<noteq> []) (map strip (parsed_entries a b)))"
  by (simp add: parse_steam_ids_def parse_loop_first_seen)

lemma parse_steam_ids_distinct: "distinct (parse_steam_ids a b)"
  by (simp add: parse_steam_ids_first_seen first_seen_distinct)

lemma parse_steam_ids_set:
  "set (parse_steam_ids a b) = {s \<in> strip ` set (parsed_entries a b). s \<noteq> []}"
  by (auto simp: parse_steam_ids_first_seen first_seen_set)

lemma parse_steam_ids_empty_iff:
  "parse_steam_ids a b = [] \<longleftrightarrow> (\<forall>e \<in> set (parsed_entries a b). strip e = [])"
proof -
  have "parse_steam_ids a b = [] \<longleftrightarrow> set (parse_steam_ids a b) = {}" by simp
  also have "\<dots> \<longleftrightarrow> (\<forall>e \<in> set (parsed_entries a b). strip e = [])"
    unfolding parse_steam_ids_set by auto
  finally show ?thesis .
qed

lemma parsed_entries_none: "parsed_entries PNone PNone = []"
  by (simp add: parsed_entries_def)


lemma if_str_owner_name [simp]: "if_str (owner_name_of_reply r) = owner_name_of_reply r"
  by (cases r) (auto simp: owner_name_of_reply_def Let_def)

lemma owner_name_nonempty: "owner_name_of_reply r = Some n \<Longrightarrow> n \<noteq> []"
  by (cases r) (auto simp: owner_name_of_reply_def Let_def split: if_splits)


lemma resolve_step_hit:
  "cache_hit f (owner_name_cache st) sid = Some c \<Longrightarrow>
     resolve_step f sid st = st\<lparr>result := AList.update sid c (result st)\<rparr>"
  by (simp add: resolve_step_def cache_hit_def)

lemma resolve_step_fetched:
  "cache_hit f (owner_name_cache st) sid = None \<Longrightarrow>
   owner_name_of_reply (profile (env st) sid) = Some n \<Longrightarrow>
     resolve_step f sid st =
       st\<lparr>owner_name_cache := AList.update sid n (owner_name_cache st),
          result := AList.update sid n (result st),
          cache_updated := True,
          env := (env st)\<lparr>log := log (env st) @ [EvFetch sid]\<rparr>\<rparr>"
  using owner_name_nonempty [of "profile (env st) sid" n]
  by (simp add: resolve_step_def cache_hit_def fetch_owner_name_from_profile_xml_def)

lemma resolve_step_failed:
  "cache_hit f (owner_name_cache st) sid = None \<Longrightarrow>
   owner_name_of_reply (profile (env st) sid) = None \<Longrightarrow>
     resolve_step f sid st = st\<lparr>env := (env st)\<lparr>log := log (env st) @ [EvFetch sid]\<rparr>\<rparr>"
  by (simp add: resolve_step_def cache_hit_def fetch_owner_name_from_profile_xml_def)

lemmas resolve_step_cases = resolve_step_hit resolve_step_fetched resolve_step_failed

lemma resolve_step_env:
  "env (resolve_step f sid st) =
     (env st)\<lparr>log := log (env st) @
        (if cache_hit f (owner_name_cache st) sid = None then [EvFetch sid] else [])\<rparr>"
  by (cases "cache_hit f (owner_name_cache st) sid";
      cases "owner_name_of_reply (profile (env st) sid)")
     (simp_all add: resolve_step_cases)

lemma resolve_step_cache:
  "map_of (owner_name_cache (resolve_step f sid st)) s =
     (if s = sid \<and> cache_hit f (owner_name_cache st) sid = None
         \<and> owner_name_of_reply (profile (env st) sid) \<noteq> None
      then owner_name_of_reply (profile (env st) sid)
      else map_of (owner_name_cache st) s)"
  by (cases "cache_hit f (owner_name_cache st) sid";
      cases "owner_name_of_reply (profile (env st) sid)")
     (simp_all add: resolve_step_cases update_conv')

lemma resolve_step_result:
  "result (resolve_step f sid st) =
     (case resolved_name f (owner_name_cache st) (env st) sid of
        Some n \<Rightarrow> AList.update sid n (result st)
      | None \<Rightarrow> result st)"
  by (cases "cache_hit f (owner_name_cache st) sid";
      cases "owner_name_of_reply (profile (env st) sid)")
     (simp_all add: resolve_step_cases resolved_name_def)

lemma resolve_step_updated:
  "cache_updated (resolve_step f sid st) =
     (cache_updated st \<or> (cache_hit f (owner_name_cache st) sid = None
         \<and> owner_name_of_reply (profile (env st) sid) \<noteq> None))"
  by (cases "cache_hit f (owner_name_cache st) sid";
      cases "owner_name_of_reply (profile (env st) sid)")
     (simp_all add: resolve_step_cases)

lemma cache_hit_cong:
  "map_of c s = map_of c' s \<Longrightarrow> cache_hit f c s = cache_hit f c' s"
  by (simp add: cache_hit_def)

lemma resolved_name_cong:
  "map_of c s = map_of c' s \<Longrightarrow> profile w = profile w' \<Longrightarrow>
     resolved_name f c w s = resolved_name f c' w' s"
  by (simp add: resolved_name_def cache_hit_def split: option.splits)


lemma map_filter_cong:
  "(\<And>x. x \<in> set xs \<Longrightarrow> f x = g x) \<Longrightarrow> List.map_filter f xs = List.map_filter g xs"
  by (induction xs) (auto simp: map_filter_simps split: option.splits)

lemma resolved_entries_Nil: "resolved_entries f c w [] = []"
  by (simp add: resolved_entries_def map_filter_simps)

lemma resolved_entries_Cons:
  "resolved_entries f c w (sid # ids) =
     (case resolved_name f c w sid of
        Some n \<Rightarrow> (sid, n) # resolved_entries f c w ids
      | None \<Rightarrow> resolved_entries f c w ids)"
  by (simp add: resolved_entries_def map_filter_simps split: option.splits)

lemma update_fresh: "k \<notin> fst ` set al \<Longrightarrow> AList.update k v al = al @ [(k, v)]"
  by (induction al) auto

lemma fold_resolve_env:
  "distinct ids \<Longrightarrow>
     env (fold (resolve_step f) ids st) =
       (env st)\<lparr>log := log (env st) @ map EvFetch (fetched_ids f (owner_name_cache st) ids)\<rparr>"
proof (induction ids arbitrary: st)
  case Nil
  then show ?case by (simp add: fetched_ids_def)
next
  case (Cons sid ids)
  let ?nxt = "resolve_step f sid st"
  have "cache_hit f (owner_name_cache ?nxt) s = cache_hit f (owner_name_cache st) s"
    if "s \<in> set ids" for s
    using that Cons.prems by (intro cache_hit_cong) (auto simp: resolve_step_cache)
  then have "fetched_ids f (owner_name_cache ?nxt) ids = fetched_ids f (owner_name_cache st) ids"
    unfolding fetched_ids_def by (intro filter_cong) auto
  moreover have "env (fold (resolve_step f) ids ?nxt) =
       (env ?nxt)\<lparr>log := log (env ?nxt) @ map EvFetch (fetched_ids f (owner_name_cache ?nxt) ids)\<rparr>"
    using Cons.prems by (intro Cons.IH) simp
  ultimately show ?case
    by (simp add: resolve_step_env fetched_ids_def)
qed

lemma fold_resolve_cache:
  "distinct ids \<Longrightarrow>
     map_of (owner_name_cache (fold (resolve_step f) ids st)) s =
       (if s \<in> set ids \<and> cache_hit f (owner_name_cache st) s = None
           \<and> owner_name_of_reply (profile (env st) s) \<noteq> None
        then owner_name_of_reply (profile (env st) s)
        else map_of (owner_name_cache st) s)"
proof (induction ids arbitrary: st)
  case Nil
  then show ?case by simp
next
  case (Cons sid ids)
  let ?nxt = "resolve_step f sid st"
  have p: "profile (env ?nxt) = profile (env st)" by (simp add: resolve_step_env)
  have h: "cache_hit f (owner_name_cache ?nxt) s = cache_hit f (owner_name_cache st) s"
    if "s \<noteq> sid"
    using that by (intro cache_hit_cong) (simp add: resolve_step_cache)
  have "map_of (owner_name_cache (fold (resolve_step f) ids ?nxt)) s =
       (if s \<in> set ids \<and> cache_hit f (owner_name_cache ?nxt) s = None
           \<and> owner_name_of_reply (profile (env ?nxt) s) \<noteq> None
        then owner_name_of_reply (profile (env ?nxt) s)
        else map_of (owner_name_cache ?nxt) s)"
    using Cons.prems by (intro Cons.IH) simp
  then have ih: "map_of (owner_name_cache (fold (resolve_step f) (sid # ids) st)) s =
       (if s \<in> set ids \<and> cache_hit f (owner_name_cache ?nxt) s = None
           \<and> owner_name_of_reply (profile (env st) s) \<noteq> None
        then owner_name_of_reply (profile (env st) s)
        else map_of (owner_name_cache ?nxt) s)"
    unfolding p by simp
  show ?case
  proof (cases "s = sid")
    case True
    then have "s \<notin> set ids" using Cons.prems by simp
    with True show ?thesis unfolding ih by (auto simp: resolve_step_cache)
  next
    case False
    then show ?thesis unfolding ih by (auto simp: h resolve_step_cache)
  qed
qed

lemma fold_resolve_updated:
  "distinct ids \<Longrightarrow>
     cache_updated (fold (resolve_step f) ids st) =
       (cache_updated st \<or>
        (\<exists>s \<in> set ids. cache_hit f (owner_name_cache st) s = None
           \<and> owner_name_of_reply (profile (env st) s) \<noteq> None))"
proof (induction ids arbitrary: st)
  case Nil
  then show ?case by simp
next
  case (Cons sid ids)
  let ?nxt = "resolve_step f sid st"
  have p: "profile (env ?nxt) = profile (env st)" by (simp add: resolve_step_env)
  have h: "cache_hit f (owner_name_cache ?nxt) s = cache_hit f (owner_name_cache st) s"
    if "s \<in> set ids" for s
    using that Cons.prems by (intro cache_hit_cong) (auto simp: resolve_step_cache)
  have "cache_updated (fold (resolve_step f) ids ?nxt) =
       (cache_updated ?nxt \<or>
        (\<exists>s \<in> set ids. cache_hit f (owner_name_cache ?nxt) s = None
           \<and> owner_name_of_reply (profile (env ?nxt) s) \<noteq> None))"
    using Cons.prems by (intro Cons.IH) simp
  then show ?case using h by (auto simp: p resolve_step_updated)
qed

lemma fold_resolve_result:
  "distinct ids \<Longrightarrow> set ids \<inter> fst ` set (result st) = {} \<Longrightarrow>
     result (fold (resolve_step f) ids st) =
       result st @ resolved_entries f (owner_name_cache st) (env st) ids"
proof (induction ids arbitrary: st)
  case Nil
  then show ?case by (simp add: resolved_entries_Nil)
next
  case (Cons sid ids)
  let ?nxt = "resolve_step f sid st"
  have p: "profile (env ?nxt) = profile (env st)" by (simp add: resolve_step_env)
  have "resolved_name f (owner_name_cache ?nxt) (env ?nxt) s
        = resolved_name f (owner_name_cache st) (env st) s" if "s \<in> set ids" for s
    using that Cons.prems(1) by (intro resolved_name_cong p) (auto simp: resolve_step_cache)
  then have e: "resolved_entries f (owner_name_cache ?nxt) (env ?nxt) ids
        = resolved_entries f (owner_name_cache st) (env st) ids"
    unfolding resolved_entries_def by (intro map_filter_cong) simp
  have fresh: "sid \<notin> fst ` set (result st)" using Cons.prems(2) by auto
  have r1: "result ?nxt =
     (case resolved_name f (owner_name_cache st) (env st) sid of
        Some n \<Rightarrow> result st @ [(sid, n)] | None \<Rightarrow> result st)"
    by (simp add: resolve_step_result update_fresh [OF fresh] split: option.splits)
  have "set ids \<inter> fst ` set (result ?nxt) = {}"
    using Cons.prems by (auto simp: r1 split: option.splits)
  then have "result (fold (resolve_step f) ids ?nxt) =
       result ?nxt @ resolved_entries f (owner_name_cache ?nxt) (env ?nxt) ids"
    using Cons.prems(1) by (intro Cons.IH) simp
  then show ?case
    by (simp add: e r1 resolved_entries_Cons split: option.splits)
qed


lemma resolved_name_log [simp]:
  "resolved_name f c (w\<lparr>log := l\<rparr>) s = resolved_name f c w s"
  by (simp add: resolved_name_def split: option.splits)

lemma resolved_entries_log [simp]:
  "resolved_entries f c (w\<lparr>log := l\<rparr>) ids = resolved_entries f c w ids"
  by (simp add: resolved_entries_def)



lemma json_dumps_names_Nil: "json_dumps_names [] = ''{}''"
  by (simp add: json_dumps_names_def)

lemma resolve_owner_names_unfold:
  assumes "load_all w = (data, w1)"
      and "py_get data (PStr OWNER_NAME_CACHE_KEY) = Inr raw"
      and "effective_ids payload a b \<noteq> []"
      and "st = fold (resolve_step (effective_force payload fr)) (effective_ids payload a b)
                  \<lparr>owner_name_cache = normalize_owner_name_cache parse raw,
                   result = [], cache_updated = False, env = w1\<rparr>"
  shows "resolve_owner_names parse payload a b fr w =
     (if cache_updated st
      then (case py_setitem data (PStr OWNER_NAME_CACHE_KEY)
                   (PStr (json_dumps_names (owner_name_cache st))) of
              Inl e \<Rightarrow> (Inl e, env st)
            | Inr data' \<Rightarrow>
                (Inr (json_dumps_names (result st)), snd (write_all data' (env st))))
      else (Inr (json_dumps_names (result st)), env st))"
  using assms(1,2,3)
  unfolding assms(4) resolve_owner_names_def effective_ids_def effective_force_def Let_def
  by (simp split: sum.splits)

lemma resolve_owner_names_empty:
  "effective_ids payload a b = [] \<Longrightarrow>
     resolve_owner_names parse payload a b fr w = (Inr ''{}'', w)"
  by (simp add: resolve_owner_names_def effective_ids_def Let_def)

lemma resolve_owner_names_run:
  fixes payload a b :: pyval and fr :: bool and parse :: "string \<Rightarrow> json option" and w :: world
  assumes d: "fst (load_all w) = PDict d"
  defines "ids \<equiv> effective_ids payload a b"
      and "f \<equiv> effective_force payload fr"
      and "cache \<equiv> persisted_cache parse w"
  defines "upd \<equiv> (\<exists>s \<in> set ids. cache_hit f cache s = None
                     \<and> owner_name_of_reply (profile w s) \<noteq> None)"
  obtains (run) w' cache' where
     "resolve_owner_names parse payload a b fr w
       = (Inr (json_dumps_names (resolved_entries f cache w ids)), w')"
     "writable w' = writable w" "profile w' = profile w"
     "log w' = log w @ (if ids = [] then []
                       else EvLoad # map EvFetch (fetched_ids f cache ids)
                            @ (if upd then [EvWrite] else []))"
     "\<And>s. map_of cache' s =
           (if s \<in> set ids \<and> cache_hit f cache s = None
               \<and> owner_name_of_reply (profile w s) \<noteq> None
            then owner_name_of_reply (profile w s)
            else map_of cache s)"
     "if upd \<and> writable w
      then fst (load_all w') =
             PDict (dict_set d (PStr OWNER_NAME_CACHE_KEY) (PStr (json_dumps_names cache')))
      else data_file w' = data_file w"
proof (cases "ids = []")
  case True
  then have "\<not> upd" by (simp add: upd_def)
  with True show ?thesis
    using resolve_owner_names_empty [of payload a b parse fr w]
    by (intro that [of w cache])
       (simp_all add: resolved_entries_Nil json_dumps_names_Nil ids_def)
next
  case False
  let ?wl = "w\<lparr>log := log w @ [EvLoad]\<rparr>"
  let ?init = "\<lparr>owner_name_cache = cache, result = [], cache_updated = False, env = ?wl\<rparr>"
  let ?fin = "fold (resolve_step f) ids ?init"
  have dist: "distinct ids" by (simp add: ids_def effective_ids_def parse_steam_ids_distinct)
  have raw: "py_get (fst (load_all w)) (PStr OWNER_NAME_CACHE_KEY)
             = Inr (entry (fst (load_all w)) OWNER_NAME_CACHE_KEY)"
    by (simp add: d py_get_def entry_def)
  have env: "env ?fin = ?wl\<lparr>log := log ?wl @ map EvFetch (fetched_ids f cache ids)\<rparr>"
    using fold_resolve_env [OF dist, where f = f and st = ?init] by simp
  have res: "result ?fin = resolved_entries f cache w ids"
    using fold_resolve_result [OF dist, where f = f and st = ?init] by simp
  have updd: "cache_updated ?fin = upd"
    using fold_resolve_updated [OF dist, where f = f and st = ?init] by (simp add: upd_def)
  have cch: "map_of (owner_name_cache ?fin) s =
           (if s \<in> set ids \<and> cache_hit f cache s = None
               \<and> owner_name_of_reply (profile w s) \<noteq> None
            then owner_name_of_reply (profile w s)
            else map_of cache s)" for s
    using fold_resolve_cache [OF dist, where f = f and st = ?init and s = s]
    by (simp cong: if_cong)
  let ?data' = "PDict (dict_set d (PStr OWNER_NAME_CACHE_KEY)
                         (PStr (json_dumps_names (owner_name_cache ?fin))))"
  have "jsonish (PDict d)" using load_all_jsonish [of w] d by simp
  then have "jsonish ?data'" by (intro jsonish_dict_set) simp_all
  from write_all_jsonish [OF this, of "env ?fin"] obtain j where j: "of_json j = ?data'"
    "write_all ?data' (env ?fin) =
       (writable (env ?fin),
        (env ?fin)\<lparr>log := log (env ?fin) @ [EvWrite],
          data_file := (if writable (env ?fin) then Doc j else data_file (env ?fin))\<rparr>)"
    by blast
  have l: "load_all w = (PDict d, ?wl)"
    using d load_all_world [of w] by (simp add: prod_eq_iff)
  have raw': "py_get (PDict d) (PStr OWNER_NAME_CACHE_KEY)
             = Inr (entry (PDict d) OWNER_NAME_CACHE_KEY)"
    by (simp add: py_get_def entry_def)
  have st: "?fin = fold (resolve_step (effective_force payload fr)) (effective_ids payload a b)
                  \<lparr>owner_name_cache =
                     normalize_owner_name_cache parse (entry (PDict d) OWNER_NAME_CACHE_KEY),
                   result = [], cache_updated = False, env = ?wl\<rparr>"
    by (simp add: ids_def f_def cache_def persisted_cache_def d)
  have ne: "effective_ids payload a b \<noteq> []" using False by (simp add: ids_def)
  have unf: "resolve_owner_names parse payload a b fr w =
     (if upd then (Inr (json_dumps_names (resolved_entries f cache w ids)),
                   snd (write_all ?data' (env ?fin)))
      else (Inr (json_dumps_names (resolved_entries f cache w ids)), env ?fin))"
    unfolding resolve_owner_names_unfold [OF l raw' ne st]
    by (simp add: updd res py_setitem_def)
  show ?thesis
  proof (cases upd)
    case True
    let ?w' = "(env ?fin)\<lparr>log := log (env ?fin) @ [EvWrite],
          data_file := (if writable (env ?fin) then Doc j else data_file (env ?fin))\<rparr>"
    have "resolve_owner_names parse payload a b fr w
            = (Inr (json_dumps_names (resolved_entries f cache w ids)), ?w')"
      using True unf j(2) by simp
    moreover have "writable ?w' = writable w" "profile ?w' = profile w" by (simp_all add: env)
    moreover have "log ?w' = log w @ EvLoad # map EvFetch (fetched_ids f cache ids) @ [EvWrite]"
      by (simp add: env)
    moreover have "writable w \<Longrightarrow> fst (load_all ?w') = ?data'"
      using j(1) by (simp add: env load_all_def)
    moreover have "\<not> writable w \<Longrightarrow> data_file ?w' = data_file w" by (simp add: env)
    ultimately show ?thesis using True False cch
      by (intro that [of ?w' "owner_name_cache ?fin"]) simp_all
  next
    case no: False
    have "resolve_owner_names parse payload a b fr w
            = (Inr (json_dumps_names (resolved_entries f cache w ids)), env ?fin)"
      using no unf by simp
    moreover have "writable (env ?fin) = writable w" "profile (env ?fin) = profile w"
      "data_file (env ?fin) = data_file w" by (simp_all add: env)
    moreover have "log (env ?fin) = log w @ EvLoad # map EvFetch (fetched_ids f cache ids)"
      by (simp add: env)
    ultimately show ?thesis using no False cch
      by (intro that [of "env ?fin" "owner_name_cache ?fin"]) simp_all
  qed
qed















lemma persisted_cache_file:
  "data_file w' = data_file w \<Longrightarrow> persisted_cache parse w' = persisted_cache parse w"
  by (simp add: persisted_cache_def load_all_def)








lemma entry_load_set:
  "fst (load_all w') = PDict (dict_set d (PStr k) v) \<Longrightarrow> entry (fst (load_all w')) k = v"
  by (simp add: entry_def dict_get_set)


lemma effective_ids_empty_iff:
  "effective_ids payload a b = [] \<longleftrightarrow>
     (\<forall>e \<in> set (parsed_entries (payload_get payload ''steam_ids'' a)
                                  (payload_get payload ''steam_ids_csv'' b)). strip e = [])"
  by (simp add: effective_ids_def parse_steam_ids_empty_iff)

lemma effective_ids_absent: "effective_ids PNone PNone PNone = []"
  by (simp add: effective_ids_empty_iff payload_get_def parsed_entries_none)












section \<open>The owner-name resolver: the claims\<close>













section \<open>Exceptions\<close>

text \<open>
  What holds of Claim C9. A data file that is absent or unreadable is loaded as the empty
  dict, a write that cannot open the file returns \<^verbatim>\<open>False\<close>, and a failed request or
  an unparsable profile gives no name. When the data file is absent, unreadable or holds
  an object, no entry point raises (for a hashable key), and it leaves the data file in
  such a state.
\<close>

lemma load_all_unreadable:
  "data_file w = Missing \<or> data_file w = Corrupt \<Longrightarrow> fst (load_all w) = PDict []"
  by (auto simp: load_all_def)

lemma write_all_not_writable:
  "\<not> writable w \<Longrightarrow> write_all data w = (False, w\<lparr>log := log w @ [EvWrite]\<rparr>)"
  by (simp add: write_all_def)

lemma fetch_failure:
  "profile w sid = NetError \<or> profile w sid = BadXml \<Longrightarrow>
     fst (fetch_owner_name_from_profile_xml sid w) = None"
  by (auto simp: fetch_owner_name_from_profile_xml_def owner_name_of_reply_def)

lemma holds_object_of_dict: "of_json j = PDict d \<Longrightarrow> holds_object (Doc j)"
  by (cases j) simp_all

lemma storage_get_returns:
  assumes "holds_object (data_file w)" and "hashable (payload_get payload ''key'' key)"
  shows "\<exists>v w'. storage_get payload key w = (Inr v, w')"
proof -
  from load_all_object [OF assms(1)] obtain d where d: "fst (load_all w) = PDict d" by blast
  have l: "load_all w = (PDict d, w\<lparr>log := log w @ [EvLoad]\<rparr>)"
    using d load_all_world [of w] by (simp add: prod_eq_iff)
  show ?thesis using assms(2) by (auto simp: storage_get_def Let_def l py_get_def)
qed

lemma storage_set_returns:
  assumes "holds_object (data_file w)" and "hashable (payload_get payload ''key'' key)"
  shows "\<exists>ok w'. storage_set payload key val w = (Inr ok, w')"
proof -
  from load_all_object [OF assms(1)] obtain d where d: "fst (load_all w) = PDict d" by blast
  have l: "load_all w = (PDict d, w\<lparr>log := log w @ [EvLoad]\<rparr>)"
    using d load_all_world [of w] by (simp add: prod_eq_iff)
  show ?thesis using assms(2)
    by (cases "str_value (payload_get payload ''value'' val)")
       (auto simp: storage_set_def Let_def l py_setitem_def split: prod.splits)
qed

lemma resolve_owner_names_returns:
  assumes "holds_object (data_file w)"
  shows "\<exists>t w'. resolve_owner_names parse payload a b fr w = (Inr t, w')"
proof -
  from load_all_object [OF assms(1)] obtain d where d: "fst (load_all w) = PDict d" by blast
  then show ?thesis
    by (cases rule: resolve_owner_names_run
          [where parse = parse and payload = payload and a = a and b = b and fr = fr]) blast
qed

lemma storage_set_keeps_object:
  assumes "holds_object (data_file w)"
      and "payload_get payload ''key'' key = PStr k"
  shows "holds_object (data_file (snd (storage_set payload key val w)))"
proof (cases "payload_get payload ''value'' val = PNone
              \<or> str_value (payload_get payload ''value'' val) = None")
  case True
  then show ?thesis using assms by (auto simp: storage_set_def Let_def)
next
  case False
  then obtain s where s: "str_value (payload_get payload ''value'' val) = Some s"
    and v: "payload_get payload ''value'' val \<noteq> PNone" by auto
  from load_all_object [OF assms(1)] obtain d where d: "fst (load_all w) = PDict d" by blast
  from storage_set_run [OF assms(2) v s d] obtain j where
    "of_json j = PDict (dict_set d (PStr k) (PStr s))"
    "storage_set payload key val w =
       (Inr (writable w),
        w\<lparr>log := log w @ [EvLoad, EvWrite],
          data_file := (if writable w then Doc j else data_file w)\<rparr>)" by blast
  then show ?thesis using assms(1) by (auto dest: holds_object_of_dict)
qed

lemma load_all_holds_object:
  "fst (load_all w) = PDict d \<Longrightarrow> holds_object (data_file w)"
  by (cases "data_file w") (auto simp: load_all_def dest: holds_object_of_dict)

lemma resolve_owner_names_keeps_object:
  assumes "holds_object (data_file w)"
  shows "holds_object (data_file (snd (resolve_owner_names parse payload a b fr w)))"
proof -
  from load_all_object [OF assms(1)] obtain d where d: "fst (load_all w) = PDict d" by blast
  then show ?thesis
  proof (cases rule: resolve_owner_names_run
          [where parse = parse and payload = payload and a = a and b = b and fr = fr])
    case (run w' cache')
    from run(6) have "holds_object (data_file w')"
      using assms by (auto dest: load_all_holds_object split: if_splits)
    then show ?thesis by (simp add: run(1))
  qed
qed

text \<open>
  Claim C9 says that no entry point ever raises. \<^verbatim>\<open>_load_all\<close> returns whatever
  \<^verbatim>\<open>json.load\<close> read, without the check that \<^verbatim>\<open>_normalize_owner_name_cache\<close> makes on
  its input, and when the data file holds a JSON document that is not an object (here the
  empty array) each of the three entry points raises.
\<close>

theorem entry_points_raise_on_non_object_document:
  "fst (storage_get PNone (PStr ''k'') list_world) = Inl AttributeError \<and>
   fst (storage_set PNone (PStr ''k'') (PStr ''v'') list_world) = Inl TypeError \<and>
   fst (resolve_owner_names parse PNone PNone (PStr ''1'') False list_world) = Inl AttributeError"
proof -
  have l: "load_all list_world = (PList [], list_world\<lparr>log := [EvLoad]\<rparr>)"
    by (simp add: load_all_def list_world_def)
  have p: "parse_steam_ids PNone (PStr ''1'') = [''1'']"
    by (simp add: parse_steam_ids_def parsed_entries_def strip_def is_space_def)
  show ?thesis
    by (simp add: storage_get_def storage_set_def resolve_owner_names_def Let_def payload_get_def
        str_value_def l p py_get_def py_setitem_def)
qed

end
